theory Spec2Isabelle
  imports Complex_Main
begin

section \<open>commoncode.filetype: file type, permission and counting utilities\<close>

text \<open>
  A shallow embedding of \<^verbatim>\<open>src/commoncode/filetype.py\<close>. The module is a thin layer
  over \<^verbatim>\<open>os\<close>, \<^verbatim>\<open>os.path\<close> and \<^verbatim>\<open>datetime\<close>; the operating system is a record of
  the primitives the module calls, the functions of the module are HOL functions over
  that record. Python values that reach the caller are kept as values (\<open>pyval\<close>), since
  the module returns whatever \<^verbatim>\<open>and\<close>/\<^verbatim>\<open>or\<close> leave behind; exceptions are the left
  summand of the result.
\<close>

subsection \<open>Python values, truthiness and exceptions\<close>

datatype pyval = PyNone | PyBool bool | PyStr string | PyInt int

fun truthy :: "pyval \<Rightarrow> bool" where
  "truthy PyNone = False"
| "truthy (PyBool b) = b"
| "truthy (PyStr s) = (s \<noteq> [])"
| "truthy (PyInt i) = (i \<noteq> 0)"

text \<open>\<^verbatim>\<open>a and b\<close>, \<^verbatim>\<open>a or b\<close>, \<^verbatim>\<open>not a\<close> on values whose evaluation has no effect.\<close>

definition py_and :: "pyval \<Rightarrow> pyval \<Rightarrow> pyval" where
  "py_and a b = (if truthy a then b else a)"

definition py_or :: "pyval \<Rightarrow> pyval \<Rightarrow> pyval" where
  "py_or a b = (if truthy a then a else b)"

definition py_not :: "pyval \<Rightarrow> pyval" where
  "py_not a = PyBool (\<not> truthy a)"

datatype exn = OSError | UnicodeEncodeError | KeyError | ValueError | OverflowError | TypeError

type_synonym 'a result = "exn + 'a"

text \<open>A result that was returned (not raised) and is truthy.\<close>

fun holds :: "pyval result \<Rightarrow> bool" where
  "holds (Inr v) = truthy v"
| "holds (Inl e) = False"

text \<open>
  A location is what callers pass as \<^verbatim>\<open>location\<close>: \<^verbatim>\<open>None\<close> or a \<^verbatim>\<open>str\<close>.
\<close>

type_synonym location = "string option"

fun loc_val :: "location \<Rightarrow> pyval" where
  "loc_val None = PyNone"
| "loc_val (Some p) = PyStr p"

subsection \<open>The operating system\<close>

datatype file_kind = S_IFREG | S_IFDIR | S_IFLNK | S_IFCHR | S_IFBLK | S_IFIFO | S_IFSOCK

record stat_result =
  st_kind :: file_kind
  st_size :: int
  st_mtime :: real

record datetime =
  year :: int
  month :: int
  day :: int
  hour :: int
  minute :: int
  second :: int
  microsecond :: int

text \<open>
  The primitives of \<^verbatim>\<open>os\<close>, \<^verbatim>\<open>os.path\<close> and \<^verbatim>\<open>datetime\<close> used by the module, and the
  constant \<^verbatim>\<open>on_posix\<close> of \<^verbatim>\<open>commoncode.system\<close>:
  \<^item> \<open>os_stat\<close> is \<^verbatim>\<open>os.stat\<close> (follows links), \<open>os_lstat\<close> is \<^verbatim>\<open>os.lstat\<close>; \<open>None\<close> is
    the case where the call raises \<^verbatim>\<open>OSError\<close> or \<^verbatim>\<open>ValueError\<close>;
  \<^item> \<open>os_readlink\<close> is \<^verbatim>\<open>os.readlink\<close>, \<open>os_scandir\<close> gives the \<^verbatim>\<open>name\<close> of each entry
    of \<^verbatim>\<open>os.scandir\<close> in the order they are produced;
  \<^item> \<open>os_access p mode\<close> is \<^verbatim>\<open>os.access(p, mode)\<close>;
  \<^item> \<open>path_join\<close> and \<open>path_dirname\<close> are \<^verbatim>\<open>os.path.join\<close> and \<^verbatim>\<open>os.path.dirname\<close>;
  \<^item> \<open>fromtimestamp_utc t\<close> is \<^verbatim>\<open>datetime.fromtimestamp(t, tz=timezone.utc)\<close>.
\<close>

record os =
  on_posix :: bool
  os_stat :: "string \<Rightarrow> stat_result option"
  os_lstat :: "string \<Rightarrow> stat_result option"
  os_readlink :: "string \<Rightarrow> string result"
  os_scandir :: "string \<Rightarrow> string list result"
  os_access :: "string \<Rightarrow> int \<Rightarrow> bool"
  path_join :: "string \<Rightarrow> string \<Rightarrow> string"
  path_dirname :: "string \<Rightarrow> string"
  fromtimestamp_utc :: "real \<Rightarrow> datetime result"

unbundle bit_operations_syntax

definition R_OK :: int where "R_OK = 4"
definition W_OK :: int where "W_OK = 2"
definition X_OK :: int where "X_OK = 1"

text \<open>
  \<^verbatim>\<open>os.path\<close> (\<^verbatim>\<open>genericpath.py\<close>): each test calls \<^verbatim>\<open>os.stat\<close> or \<^verbatim>\<open>os.lstat\<close>,
  answers \<^verbatim>\<open>False\<close> when the call fails and the mode test otherwise.
\<close>

definition os_path_islink :: "os \<Rightarrow> string \<Rightarrow> bool" where
  "os_path_islink sys p =
     (case os_lstat sys p of None \<Rightarrow> False | Some st \<Rightarrow> st_kind st = S_IFLNK)"

definition os_path_isfile :: "os \<Rightarrow> string \<Rightarrow> bool" where
  "os_path_isfile sys p =
     (case os_stat sys p of None \<Rightarrow> False | Some st \<Rightarrow> st_kind st = S_IFREG)"

definition os_path_isdir :: "os \<Rightarrow> string \<Rightarrow> bool" where
  "os_path_isdir sys p =
     (case os_stat sys p of None \<Rightarrow> False | Some st \<Rightarrow> st_kind st = S_IFDIR)"

definition os_path_exists :: "os \<Rightarrow> string \<Rightarrow> bool" where
  "os_path_exists sys p = (os_stat sys p \<noteq> None)"

definition os_path_getsize :: "os \<Rightarrow> string \<Rightarrow> int result" where
  "os_path_getsize sys p =
     (case os_stat sys p of None \<Rightarrow> Inl OSError | Some st \<Rightarrow> Inr (st_size st))"


subsection \<open>Type classification\<close>

text \<open>\<^verbatim>\<open>return location and os.path.islink(location)\<close>\<close>

fun is_link :: "os \<Rightarrow> location \<Rightarrow> pyval" where
  "is_link sys None = PyNone"
| "is_link sys (Some p) = py_and (PyStr p) (PyBool (os_path_islink sys p))"

text \<open>
  \<^verbatim>\<open>get_link_target\<close>: \<^verbatim>\<open>os.readlink\<close> is called only behind \<^verbatim>\<open>on_posix and is_link(location)\<close>;
  \<^verbatim>\<open>UnicodeEncodeError\<close> is caught, any other exception leaves the function.
\<close>

fun get_link_target :: "os \<Rightarrow> location \<Rightarrow> string result" where
  "get_link_target sys None = Inr []"
| "get_link_target sys (Some p) =
     (if on_posix sys \<and> truthy (is_link sys (Some p)) then
        (case os_readlink sys p of
           Inr target \<Rightarrow> Inr target
         | Inl UnicodeEncodeError \<Rightarrow> Inr []
         | Inl e \<Rightarrow> Inl e)
      else Inr [])"

text \<open>
  \<^verbatim>\<open>is_broken_link\<close>: the body of the \<^verbatim>\<open>if\<close> returns \<^verbatim>\<open>target and not os.path.exists(target_loc)\<close>;
  where the condition fails the function ends without \<^verbatim>\<open>return\<close>, which is \<^verbatim>\<open>None\<close>.
\<close>

fun is_broken_link :: "os \<Rightarrow> location \<Rightarrow> pyval result" where
  "is_broken_link sys None = Inr PyNone"
| "is_broken_link sys (Some p) =
     (if on_posix sys \<and> truthy (is_link sys (Some p)) then
        (case get_link_target sys (Some p) of
           Inl e \<Rightarrow> Inl e
         | Inr target \<Rightarrow>
             (let target_loc = path_join sys (path_dirname sys p) target
              in Inr (py_and (PyStr target) (PyBool (\<not> os_path_exists sys target_loc)))))
      else Inr PyNone)"

text \<open>
  \<^verbatim>\<open>is_file(location, follow_symlinks=False)\<close>. The chain
  \<^verbatim>\<open>_is_file and not is_link(location) and not is_broken_link(location)\<close> stops at the first
  falsy operand, so \<^verbatim>\<open>is_broken_link\<close> runs only after \<^verbatim>\<open>not is_link(location)\<close> was true.
\<close>

fun is_file :: "os \<Rightarrow> location \<Rightarrow> bool \<Rightarrow> pyval result" where
  "is_file sys None follow_symlinks = Inr PyNone"
| "is_file sys (Some p) follow_symlinks =
     (let is_file' = py_and (PyStr p) (PyBool (os_path_isfile sys p)) in
      if follow_symlinks then Inr is_file'
      else if \<not> truthy is_file' then Inr is_file'
      else if \<not> truthy (py_not (is_link sys (Some p))) then Inr (py_not (is_link sys (Some p)))
      else (case is_broken_link sys (Some p) of
              Inl e \<Rightarrow> Inl e
            | Inr b \<Rightarrow> Inr (py_not b)))"

text \<open>
  \<^verbatim>\<open>is_dir(location, follow_symlinks=False)\<close>, with
  \<^verbatim>\<open>_is_dir = location and os.path.isdir(location) and not is_file(location)\<close>.
\<close>

fun is_dir :: "os \<Rightarrow> location \<Rightarrow> bool \<Rightarrow> pyval result" where
  "is_dir sys None follow_symlinks = Inr PyNone"
| "is_dir sys (Some p) follow_symlinks =
     (case (if \<not> truthy (PyStr p) then Inr (PyStr p)
            else if \<not> os_path_isdir sys p then Inr (PyBool False)
            else (case is_file sys (Some p) False of
                    Inl e \<Rightarrow> Inl e
                  | Inr f \<Rightarrow> Inr (py_not f))) of
        Inl e \<Rightarrow> Inl e
      | Inr is_dir' \<Rightarrow>
          if follow_symlinks then Inr is_dir'
          else if \<not> truthy is_dir' then Inr is_dir'
          else if \<not> truthy (py_not (is_link sys (Some p))) then Inr (py_not (is_link sys (Some p)))
          else (case is_broken_link sys (Some p) of
                  Inl e \<Rightarrow> Inl e
                | Inr b \<Rightarrow> Inr (py_not b)))"

text \<open>\<^verbatim>\<open>return location and (is_file(location) or is_dir(location))\<close>\<close>

definition is_regular :: "os \<Rightarrow> location \<Rightarrow> pyval result" where
  "is_regular sys location =
     (if \<not> truthy (loc_val location) then Inr (loc_val location)
      else (case is_file sys location False of
              Inl e \<Rightarrow> Inl e
            | Inr f \<Rightarrow> if truthy f then Inr f else is_dir sys location False))"

text \<open>\<^verbatim>\<open>return not is_regular(location)\<close>\<close>

definition is_special :: "os \<Rightarrow> location \<Rightarrow> pyval result" where
  "is_special sys location =
     (case is_regular sys location of Inl e \<Rightarrow> Inl e | Inr r \<Rightarrow> Inr (py_not r))"

text \<open>
  \<^verbatim>\<open>TYPES\<close>: a dict from checker function to (short, long) code; a dict keeps the order
  in which the pairs were given, which is the order \<^verbatim>\<open>get_type\<close> tries them in.
\<close>

definition TYPES :: "((os \<Rightarrow> location \<Rightarrow> pyval result) \<times> string \<times> string) list" where
  "TYPES =
     [(\<lambda>sys location. Inr (is_link sys location), ''l'', ''link''),
      (\<lambda>sys location. is_file sys location False, ''f'', ''file''),
      (\<lambda>sys location. is_dir sys location False, ''d'', ''directory''),
      (is_special, ''s'', ''special'')]"

text \<open>
  The loop of \<^verbatim>\<open>get_type\<close> over the checkers: the first truthy checker decides with
  \<^verbatim>\<open>short and short_form or long_form\<close>; when the loop ends the function returns \<^verbatim>\<open>None\<close>.
\<close>

fun get_type_loop ::
  "((os \<Rightarrow> location \<Rightarrow> pyval result) \<times> string \<times> string) list \<Rightarrow> os \<Rightarrow> location \<Rightarrow> bool
     \<Rightarrow> pyval result" where
  "get_type_loop [] sys location short = Inr PyNone"
| "get_type_loop ((type_checker, short_form, long_form) # types) sys location short =
     (case type_checker sys location of
        Inl e \<Rightarrow> Inl e
      | Inr tc \<Rightarrow>
          if truthy tc
          then Inr (py_or (py_and (PyBool short) (PyStr short_form)) (PyStr long_form))
          else get_type_loop types sys location short)"

definition get_type :: "os \<Rightarrow> location \<Rightarrow> bool \<Rightarrow> pyval result" where
  "get_type sys location short =
     (if truthy (loc_val location) then get_type_loop TYPES sys location short
      else Inr PyNone)"

subsection \<open>Permissions\<close>

text \<open>
  Each test ends without \<^verbatim>\<open>return\<close> (the value \<^verbatim>\<open>None\<close>) when \<^verbatim>\<open>location\<close> is falsy, and
  picks the mode passed to \<^verbatim>\<open>os.access\<close> by \<^verbatim>\<open>is_dir(location)\<close> otherwise.
\<close>

fun is_readable :: "os \<Rightarrow> location \<Rightarrow> pyval result" where
  "is_readable sys None = Inr PyNone"
| "is_readable sys (Some p) =
     (if truthy (PyStr p) then
        (case is_dir sys (Some p) False of
           Inl e \<Rightarrow> Inl e
         | Inr d \<Rightarrow>
             if truthy d then Inr (PyBool (os_access sys p (R_OK OR X_OK)))
             else Inr (PyBool (os_access sys p R_OK)))
      else Inr PyNone)"

fun is_writable :: "os \<Rightarrow> location \<Rightarrow> pyval result" where
  "is_writable sys None = Inr PyNone"
| "is_writable sys (Some p) =
     (if truthy (PyStr p) then
        (case is_dir sys (Some p) False of
           Inl e \<Rightarrow> Inl e
         | Inr d \<Rightarrow>
             if truthy d then Inr (PyBool (os_access sys p (R_OK OR W_OK OR X_OK)))
             else Inr (PyBool (os_access sys p (R_OK OR W_OK))))
      else Inr PyNone)"

fun is_executable :: "os \<Rightarrow> location \<Rightarrow> pyval result" where
  "is_executable sys None = Inr PyNone"
| "is_executable sys (Some p) =
     (if truthy (PyStr p) then
        (case is_dir sys (Some p) False of
           Inl e \<Rightarrow> Inl e
         | Inr d \<Rightarrow>
             if truthy d then Inr (PyBool (os_access sys p (R_OK OR W_OK OR X_OK)))
             else Inr (PyBool (os_access sys p X_OK)))
      else Inr PyNone)"

text \<open>\<^verbatim>\<open>return is_readable(location) and is_writable(location) and is_executable(location)\<close>\<close>

definition is_rwx :: "os \<Rightarrow> location \<Rightarrow> pyval result" where
  "is_rwx sys location =
     (case is_readable sys location of
        Inl e \<Rightarrow> Inl e
      | Inr r \<Rightarrow>
          if \<not> truthy r then Inr r
          else (case is_writable sys location of
                  Inl e \<Rightarrow> Inl e
                | Inr w \<Rightarrow> if \<not> truthy w then Inr w else is_executable sys location))"

subsection \<open>Last modified date\<close>







subsection \<open>Counting\<close>

text \<open>
  \<^verbatim>\<open>counting_functions\<close>: the registry from the name of a count to the function that
  gives the count of one file.
\<close>

definition counting_functions :: "string \<rightharpoonup> (os \<Rightarrow> location \<Rightarrow> int result)" where
  "counting_functions =
     [''file_count'' \<mapsto> (\<lambda>sys location. Inr 1),
      ''file_size'' \<mapsto> (\<lambda>sys location.
         case location of None \<Rightarrow> Inl TypeError | Some p \<Rightarrow> os_path_getsize sys p)]"

text \<open>
  The memo table of the decorator: from the argument pair to the value returned. A
  call either runs out of fuel (\<open>None\<close>) or gives a result and the table it leaves.
\<close>

type_synonym memos = "(location \<times> string) \<rightharpoonup> int"

type_synonym outcome = "(int result \<times> memos) option"

text \<open>
  Modelled from the spec: the decorator \<^verbatim>\<open>memoize\<close> of \<^verbatim>\<open>commoncode.functional\<close> is not
  among the sources. The specification says of it: results are cached by the pair
  (path, metric); a second call with the same pair returns the cached value without
  touching the filesystem again; the cache is populated lazily and never evicted. A call
  that raises returns nothing, so nothing is stored for it.
\<close>

definition memoize :: "(memos \<Rightarrow> location \<times> string \<Rightarrow> outcome) \<Rightarrow> memos \<Rightarrow> location \<times> string \<Rightarrow> outcome" where
  "memoize fn memos args =
     (case memos args of
        Some v \<Rightarrow> Some (Inr v, memos)
      | None \<Rightarrow>
          (case fn memos args of
             None \<Rightarrow> None
           | Some (Inl e, memos') \<Rightarrow> Some (Inl e, memos')
           | Some (Inr v, memos') \<Rightarrow> Some (Inr v, memos'(args \<mapsto> v))))"

text \<open>
  \<^verbatim>\<open>sum(counter(os.path.join(location, p.name), counting_function) for p in os.scandir(location))\<close>:
  the calls are made in the order of the entries, each on the table left by the one
  before; the first exception ends the sum.
\<close>

fun sum_counts :: "(memos \<Rightarrow> location \<Rightarrow> outcome) \<Rightarrow> memos \<Rightarrow> location list \<Rightarrow> int \<Rightarrow> outcome" where
  "sum_counts call memos [] subtotal = Some (Inr subtotal, memos)"
| "sum_counts call memos (child # children) subtotal =
     (case call memos child of
        None \<Rightarrow> None
      | Some (Inl e, memos') \<Rightarrow> Some (Inl e, memos')
      | Some (Inr n, memos') \<Rightarrow> sum_counts call memos' children (subtotal + n))"

text \<open>
  The body of \<^verbatim>\<open>counter\<close>; \<open>call\<close> is the (memoized) function that the name \<^verbatim>\<open>counter\<close>
  denotes inside the body.
\<close>

definition counter_body ::
  "(memos \<Rightarrow> location \<Rightarrow> outcome) \<Rightarrow> os \<Rightarrow> memos \<Rightarrow> location \<Rightarrow> string \<Rightarrow> outcome" where
  "counter_body call sys memos location counting_function =
     (case is_file sys location False of
        Inl e \<Rightarrow> Some (Inl e, memos)
      | Inr f \<Rightarrow>
     (case (if truthy f then Inr f else is_dir sys location False) of
        Inl e \<Rightarrow> Some (Inl e, memos)
      | Inr file_or_dir \<Rightarrow>
     if \<not> truthy file_or_dir then Some (Inr 0, memos)
     else
     (let count = 0 in
      case is_file sys location False of
        Inl e \<Rightarrow> Some (Inl e, memos)
      | Inr f' \<Rightarrow>
      if truthy f' then
        (case counting_functions counting_function of
           None \<Rightarrow> Some (Inl KeyError, memos)
         | Some count_fun \<Rightarrow> Some (count_fun sys location, memos))
      else
        (case is_dir sys location False of
           Inl e \<Rightarrow> Some (Inl e, memos)
         | Inr d \<Rightarrow>
         if truthy d then
           (case location of
              None \<Rightarrow> Some (Inl TypeError, memos)
            | Some p \<Rightarrow>
                (case os_scandir sys p of
                   Inl e \<Rightarrow> Some (Inl e, memos)
                 | Inr names \<Rightarrow>
                     (case sum_counts call memos (map (\<lambda>name. Some (path_join sys p name)) names) 0 of
                        None \<Rightarrow> None
                      | Some (Inl e, memos') \<Rightarrow> Some (Inl e, memos')
                      | Some (Inr s, memos') \<Rightarrow> Some (Inr (count + s), memos'))))
         else Some (Inr count, memos)))))"

text \<open>
  \<^verbatim>\<open>counter\<close> is the body under the decorator. The recursion follows the directory
  tree, whose depth is not known to the function: \<open>fuel\<close> bounds the depth of the calls.
\<close>

primrec counter :: "nat \<Rightarrow> os \<Rightarrow> memos \<Rightarrow> location \<Rightarrow> string \<Rightarrow> outcome" where
  "counter 0 sys memos location counting_function = None"
| "counter (Suc fuel) sys memos location counting_function =
     memoize
       (\<lambda>m args. counter_body (\<lambda>m' child. counter fuel sys m' child (snd args)) sys m (fst args) (snd args))
       memos (location, counting_function)"

definition get_file_count :: "nat \<Rightarrow> os \<Rightarrow> memos \<Rightarrow> location \<Rightarrow> outcome" where
  "get_file_count fuel sys memos location = counter fuel sys memos location ''file_count''"

definition get_size :: "nat \<Rightarrow> os \<Rightarrow> memos \<Rightarrow> location \<Rightarrow> outcome" where
  "get_size fuel sys memos location = counter fuel sys memos location ''file_size''"

subsection \<open>The aggregate of the specification\<close>

text \<open>
  The specification's \<^verbatim>\<open>aggregate(path, metric)\<close>, written from its words and without
  the cache, to compare \<open>counter\<close> with: 0 when the path is neither a file nor a
  directory; the metric's single-file contribution (1 for the count, the byte length for
  the size) when it is a file; the sum of the aggregate of every immediate child, the
  child's name joined to the path, when it is a directory. An error of the directory
  enumeration is passed on to the caller.
\<close>

datatype metric = FileCount | FileSize

fun metric_name :: "metric \<Rightarrow> string" where
  "metric_name FileCount = ''file_count''"
| "metric_name FileSize = ''file_size''"

fun contribution :: "os \<Rightarrow> metric \<Rightarrow> string \<Rightarrow> int result" where
  "contribution sys FileCount p = Inr 1"
| "contribution sys FileSize p = os_path_getsize sys p"

fun sum_results :: "int result option list \<Rightarrow> int \<Rightarrow> int result option" where
  "sum_results [] acc = Some (Inr acc)"
| "sum_results (None # rs) acc = None"
| "sum_results (Some (Inl e) # rs) acc = Some (Inl e)"
| "sum_results (Some (Inr n) # rs) acc = sum_results rs (acc + n)"

primrec aggregate :: "nat \<Rightarrow> os \<Rightarrow> location \<Rightarrow> metric \<Rightarrow> int result option" where
  "aggregate 0 sys location m = None"
| "aggregate (Suc fuel) sys location m =
     (case location of
        None \<Rightarrow> Some (Inr 0)
      | Some p \<Rightarrow>
          if holds (is_file sys (Some p) False) then Some (contribution sys m p)
          else if holds (is_dir sys (Some p) False) then
            (case os_scandir sys p of
               Inl e \<Rightarrow> Some (Inl e)
             | Inr names \<Rightarrow>
                 sum_results (map (\<lambda>name. aggregate fuel sys (Some (path_join sys p name)) m) names) 0)
          else Some (Inr 0))"

text \<open>
  A memo table agrees with the filesystem when every value it holds for a metric is the
  aggregate of its path. The empty table does, and \<open>counter\<close> keeps the property (lemmas
  \<open>memos_ok_empty\<close> and \<open>counter_complete\<close> below), so every table the process can reach
  while the filesystem does not change has it.
\<close>

definition memos_ok :: "os \<Rightarrow> memos \<Rightarrow> bool" where
  "memos_ok sys memos =
     (\<forall>location m v. memos (location, metric_name m) = Some v
        \<longrightarrow> (\<exists>fuel. aggregate fuel sys location m = Some (Inr v)))"

text \<open>The value of a call, without the table it leaves.\<close>

definition returned :: "outcome \<Rightarrow> int result option" where
  "returned out = map_option fst out"

text \<open>
  The tree under a path is at most \<open>n\<close> directories deep: the measure of how much fuel a
  call of \<open>counter\<close> needs (lemma \<open>counter_terminates\<close>).
\<close>

primrec depth_within :: "nat \<Rightarrow> os \<Rightarrow> location \<Rightarrow> bool" where
  "depth_within 0 sys location = (\<not> holds (is_dir sys location False))"
| "depth_within (Suc n) sys location =
     (case location of
        None \<Rightarrow> True
      | Some p \<Rightarrow>
          if holds (is_dir sys (Some p) False) then
            (case os_scandir sys p of
               Inl e \<Rightarrow> True
             | Inr names \<Rightarrow> list_all (\<lambda>name. depth_within n sys (Some (path_join sys p name))) names)
          else True)"

subsection \<open>A filesystem to run the functions on\<close>

text \<open>\<^verbatim>\<open>posixpath.join\<close> of two components and \<^verbatim>\<open>posixpath.dirname\<close>.\<close>

definition posix_join :: "string \<Rightarrow> string \<Rightarrow> string" where
  "posix_join a b =
     (if b \<noteq> [] \<and> hd b = CHR ''/'' then b
      else if a = [] \<or> last a = CHR ''/'' then a @ b
      else a @ ''/'' @ b)"

definition posix_dirname :: "string \<Rightarrow> string" where
  "posix_dirname p =
     (let head = rev (dropWhile (\<lambda>c. c \<noteq> CHR ''/'') (rev p)) in
      if head \<noteq> [] \<and> head \<noteq> replicate (length head) (CHR ''/'')
      then rev (dropWhile (\<lambda>c. c = CHR ''/'') (rev head))
      else head)"

text \<open>
  The directory \<^verbatim>\<open>/root\<close> holds the file \<^verbatim>\<open>a.txt\<close> (5 bytes), the directory \<^verbatim>\<open>sub\<close> with
  the file \<^verbatim>\<open>b.txt\<close> (3 bytes), the link \<^verbatim>\<open>lnk\<close> to \<^verbatim>\<open>a.txt\<close>, the link \<^verbatim>\<open>broken\<close> to a
  name that does not exist, the link \<^verbatim>\<open>odd\<close> whose target cannot be encoded, the empty
  directory \<^verbatim>\<open>rx\<close> that may be read and entered but not written, and the empty directory
  \<^verbatim>\<open>rw\<close> that may be read and written but not entered. The files may be read and
  written, the other directories read, written and entered. Nothing else exists.
\<close>

definition demo_stat :: "file_kind \<Rightarrow> int \<Rightarrow> stat_result" where
  "demo_stat k n = \<lparr>st_kind = k, st_size = n, st_mtime = 1700000000\<rparr>"

definition demo_os :: os where
  "demo_os =
     \<lparr>on_posix = True,
      os_stat = map_of
        [(''/root'', demo_stat S_IFDIR 4096),
         (''/root/a.txt'', demo_stat S_IFREG 5),
         (''/root/sub'', demo_stat S_IFDIR 4096),
         (''/root/sub/b.txt'', demo_stat S_IFREG 3),
         (''/root/lnk'', demo_stat S_IFREG 5),
         (''/root/rx'', demo_stat S_IFDIR 4096),
         (''/root/rw'', demo_stat S_IFDIR 4096)],
      os_lstat = map_of
        [(''/root'', demo_stat S_IFDIR 4096),
         (''/root/a.txt'', demo_stat S_IFREG 5),
         (''/root/sub'', demo_stat S_IFDIR 4096),
         (''/root/sub/b.txt'', demo_stat S_IFREG 3),
         (''/root/lnk'', demo_stat S_IFLNK 5),
         (''/root/broken'', demo_stat S_IFLNK 7),
         (''/root/odd'', demo_stat S_IFLNK 4),
         (''/root/rx'', demo_stat S_IFDIR 4096),
         (''/root/rw'', demo_stat S_IFDIR 4096)],
      os_readlink = (\<lambda>p.
         if p = ''/root/lnk'' then Inr ''a.txt''
         else if p = ''/root/broken'' then Inr ''missing''
         else if p = ''/root/odd'' then Inl UnicodeEncodeError
         else Inl OSError),
      os_scandir = (\<lambda>p.
         if p = ''/root'' then Inr [''a.txt'', ''sub'', ''lnk'', ''broken'', ''odd'', ''rx'', ''rw'']
         else if p = ''/root/sub'' then Inr [''b.txt'']
         else if p = ''/root/rx'' \<or> p = ''/root/rw'' then Inr []
         else Inl OSError),
      os_access = (\<lambda>p mode.
         if p = ''/root'' \<or> p = ''/root/sub'' then True
         else if p = ''/root/rx'' then mode AND W_OK = 0
         else if p = ''/root/rw'' then mode AND X_OK = 0
         else if p = ''/root/a.txt'' \<or> p = ''/root/sub/b.txt'' \<or> p = ''/root/lnk''
           then mode AND X_OK = 0
         else False),
      path_join = posix_join,
      path_dirname = posix_dirname,
      fromtimestamp_utc = (\<lambda>t.
         if t = 1700000000
         then Inr \<lparr>year = 2023, month = 11, day = 14, hour = 22, minute = 13, second = 20,
                   microsecond = 0\<rparr>
         else Inl OverflowError)\<rparr>"

section \<open>Properties\<close>

subsection \<open>What the classifiers compute\<close>

text \<open>
  Without \<^verbatim>\<open>follow_symlinks\<close>, \<^verbatim>\<open>is_file\<close> and \<^verbatim>\<open>is_dir\<close> never reach \<^verbatim>\<open>os.readlink\<close>:
  \<^verbatim>\<open>is_broken_link\<close> runs only where \<^verbatim>\<open>is_link\<close> was false, and returns \<^verbatim>\<open>None\<close> there.
\<close>

lemma is_link_Some:
  "is_link sys (Some p) = (if p = [] then PyStr [] else PyBool (os_path_islink sys p))"
  by (simp add: py_and_def)

lemma is_file_nofollow:
  "is_file sys (Some p) False =
     Inr (if p = [] then PyStr [] else PyBool (os_path_isfile sys p \<and> \<not> os_path_islink sys p))"
  by (simp add: py_and_def py_not_def Let_def)

lemma isdir_not_isfile: "os_path_isdir sys p \<Longrightarrow> \<not> os_path_isfile sys p"
  by (auto simp: os_path_isdir_def os_path_isfile_def split: option.splits)

lemma is_dir_nofollow:
  "is_dir sys (Some p) False =
     Inr (if p = [] then PyStr [] else PyBool (os_path_isdir sys p \<and> \<not> os_path_islink sys p))"
  using isdir_not_isfile [of sys p]
  by (simp add: py_and_def py_not_def Let_def is_file_nofollow del: is_file.simps)

declare is_link.simps(2) [simp del] is_file.simps(2) [simp del] is_dir.simps(2) [simp del]

lemma is_file_returns: "\<exists>v. is_file sys location False = Inr v"
  by (cases location) (simp_all add: is_file_nofollow)

lemma is_dir_returns: "\<exists>v. is_dir sys location False = Inr v"
  by (cases location) (simp_all add: is_dir_nofollow)

lemma not_file_and_dir:
  "holds (is_file sys location False) \<Longrightarrow> \<not> holds (is_dir sys location False)"
  using isdir_not_isfile
  by (cases location) (auto simp: is_file_nofollow is_dir_nofollow split: if_splits)

lemma holds_is_file_stat:
  "holds (is_file sys (Some p) False) \<Longrightarrow> \<exists>st. os_stat sys p = Some st \<and> st_kind st = S_IFREG"
  by (auto simp: is_file_nofollow os_path_isfile_def split: if_splits option.splits)

lemma is_regular_Some:
  "is_regular sys (Some p) =
     Inr (if p = [] then PyStr []
          else PyBool ((os_path_isfile sys p \<or> os_path_isdir sys p) \<and> \<not> os_path_islink sys p))"
  by (auto simp: is_regular_def is_file_nofollow is_dir_nofollow)

lemma is_special_Some:
  "is_special sys (Some p) =
     Inr (PyBool (p = [] \<or> os_path_islink sys p \<or> \<not> (os_path_isfile sys p \<or> os_path_isdir sys p)))"
  by (auto simp: is_special_def is_regular_Some py_not_def)

lemma is_special_None: "is_special sys None = Inr (PyBool True)"
  by (simp add: is_special_def is_regular_def py_not_def)

lemma get_type_link:
  "truthy (is_link sys location) \<Longrightarrow>
     get_type sys location short = Inr (PyStr (if short then ''l'' else ''link''))"
  by (cases location)
     (auto simp: get_type_def TYPES_def is_link_Some py_and_def py_or_def split: if_splits)

lemma broken_is_link: "holds (is_broken_link sys location) \<Longrightarrow> truthy (is_link sys location)"
  by (cases location) (auto simp: is_link_Some split: if_splits)

lemma link_is_special:
  "truthy (is_link sys location) \<Longrightarrow> is_special sys location = Inr (PyBool True)"
  by (cases location) (auto simp: is_special_Some is_link_Some split: if_splits)

text \<open>Unfolding the primitives of \<^verbatim>\<open>os.path\<close> on the example filesystem.\<close>

lemmas demo =
  demo_os_def demo_stat_def os_path_islink_def os_path_isfile_def os_path_isdir_def
  os_path_exists_def posix_join_def posix_dirname_def

subsection \<open>The type of a path that does not exist\<close>

text \<open>
  A path that is not empty always gets a code: when neither \<^verbatim>\<open>os.lstat\<close> nor \<^verbatim>\<open>os.stat\<close>
  finds it, the code is that of a special file.
\<close>

lemma get_type_missing_path:
  assumes "p \<noteq> []" and "os_lstat sys p = None" and "os_stat sys p = None"
  shows "get_type sys (Some p) short = Inr (PyStr (if short then ''s'' else ''special''))"
  using assms
  by (simp add: get_type_def TYPES_def is_link_Some is_file_nofollow is_dir_nofollow
      is_special_Some py_and_def py_or_def os_path_islink_def os_path_isfile_def
      os_path_isdir_def)

text \<open>
  C1. The claim: for every path that is empty or does not exist, \<^verbatim>\<open>get_type\<close> returns
  nothing, and never the code of a special file. The docstring of \<^verbatim>\<open>get_type\<close> promises
  the same (``or None if it does not exist''). The code does so for an empty path only:
  for the path \<^verbatim>\<open>/root/missing\<close>, which neither \<^verbatim>\<open>os.lstat\<close> nor \<^verbatim>\<open>os.stat\<close> finds, the
  three first checkers are false, \<^verbatim>\<open>is_special\<close> is true, and \<^verbatim>\<open>get_type\<close> returns
  \<^verbatim>\<open>'s'\<close>, or \<^verbatim>\<open>'special'\<close> in the long form.
\<close>

theorem get_type_nonexistent:
  "os_lstat demo_os ''/root/missing'' = None \<and> os_stat demo_os ''/root/missing'' = None
   \<and> get_type demo_os (Some ''/root/missing'') True = Inr (PyStr ''s'')
   \<and> get_type demo_os (Some ''/root/missing'') False = Inr (PyStr ''special'')"
  by (simp add: get_type_def TYPES_def is_link_Some is_file_nofollow is_dir_nofollow
      is_special_Some py_and_def py_or_def demo)

subsection \<open>The type of a broken link\<close>

text \<open>
  C9. For every path that is a broken symbolic link (\<^verbatim>\<open>is_broken_link\<close> is true of it, or
  it is a link and \<^verbatim>\<open>os.path.exists\<close> is false of it), \<^verbatim>\<open>get_type\<close> returns \<^verbatim>\<open>'l'\<close> in the
  short form and \<^verbatim>\<open>'link'\<close> in the long form, although \<^verbatim>\<open>is_special\<close> is \<^verbatim>\<open>True\<close> for the
  path as well: the codes of \<^verbatim>\<open>TYPES\<close> are tried in the order link, file, directory,
  special, and the link check comes first.
\<close>

theorem broken_link_type:
  "holds (is_broken_link sys location)
     \<or> (\<exists>p. location = Some p \<and> p \<noteq> [] \<and> os_path_islink sys p \<and> \<not> os_path_exists sys p)
   \<Longrightarrow> get_type sys location True = Inr (PyStr ''l'')
       \<and> get_type sys location False = Inr (PyStr ''link'')
       \<and> is_special sys location = Inr (PyBool True)
       \<and> map (\<lambda>t. fst (snd t)) TYPES = [''l'', ''f'', ''d'', ''s'']"
proof -
  assume h: "holds (is_broken_link sys location)
     \<or> (\<exists>p. location = Some p \<and> p \<noteq> [] \<and> os_path_islink sys p \<and> \<not> os_path_exists sys p)"
  have l: "truthy (is_link sys location)"
    using h broken_is_link by (auto simp: is_link_Some)
  show ?thesis
    using get_type_link [OF l] link_is_special [OF l] by (simp add: TYPES_def)
qed

theorem broken_link_type_witness:
  "holds (is_broken_link demo_os (Some ''/root/broken''))
   \<and> os_path_islink demo_os ''/root/broken'' \<and> \<not> os_path_exists demo_os ''/root/broken''
   \<and> get_type demo_os (Some ''/root/broken'') True = Inr (PyStr ''l'')
   \<and> get_type demo_os (Some ''/root/broken'') False = Inr (PyStr ''link'')
   \<and> is_special demo_os (Some ''/root/broken'') = Inr (PyBool True)"
proof -
  have h: "holds (is_broken_link demo_os (Some ''/root/broken''))"
    by (simp add: is_link_Some py_and_def demo)
  have e: "os_path_islink demo_os ''/root/broken'' \<and> \<not> os_path_exists demo_os ''/root/broken''"
    by (simp add: demo)
  show ?thesis
    using h e broken_link_type [of demo_os "Some ''/root/broken''"] by simp
qed

subsection \<open>The four classifiers do not partition the paths\<close>

text \<open>
  C2, as claimed: for every path that exists exactly one of \<^verbatim>\<open>is_link\<close>, \<^verbatim>\<open>is_file\<close>,
  \<^verbatim>\<open>is_dir\<close>, \<^verbatim>\<open>is_special\<close> holds, and for a path that does not exist all four are
  false. The code differs on both counts: \<^verbatim>\<open>/root/lnk\<close>, a link to a file, exists and is
  both a link and special; \<^verbatim>\<open>/root/missing\<close> does not exist and is special.
\<close>

theorem partition_counterexample:
  "os_lstat demo_os ''/root/lnk'' \<noteq> None \<and> os_stat demo_os ''/root/lnk'' \<noteq> None
   \<and> is_link demo_os (Some ''/root/lnk'') = PyBool True
   \<and> is_special demo_os (Some ''/root/lnk'') = Inr (PyBool True)
   \<and> os_lstat demo_os ''/root/missing'' = None \<and> os_stat demo_os ''/root/missing'' = None
   \<and> is_special demo_os (Some ''/root/missing'') = Inr (PyBool True)"
  by (simp add: is_link_Some is_special_Some demo)

lemma not_exists_tests:
  "os_lstat sys p = None \<Longrightarrow> os_stat sys p = None \<Longrightarrow>
     \<not> os_path_islink sys p \<and> \<not> os_path_isfile sys p \<and> \<not> os_path_isdir sys p"
  by (simp add: os_path_islink_def os_path_isfile_def os_path_isdir_def)

text \<open>
  C2, amended. \<^verbatim>\<open>is_special\<close> is the negation of \<^verbatim>\<open>is_regular\<close>, so for every path,
  existing or not, exactly one of \<^verbatim>\<open>is_file\<close>, \<^verbatim>\<open>is_dir\<close>, \<^verbatim>\<open>is_special\<close> holds; a path of
  which \<^verbatim>\<open>is_link\<close> holds is neither a file nor a directory and is special; for a path that
  does not exist \<^verbatim>\<open>is_link\<close>, \<^verbatim>\<open>is_file\<close> and \<^verbatim>\<open>is_dir\<close> are false and \<^verbatim>\<open>is_special\<close> is true.
\<close>

theorem classification_partition:
  "((holds (is_file sys location False) \<and> \<not> holds (is_dir sys location False)
        \<and> \<not> holds (is_special sys location))
      \<or> (holds (is_dir sys location False) \<and> \<not> holds (is_file sys location False)
        \<and> \<not> holds (is_special sys location))
      \<or> (holds (is_special sys location) \<and> \<not> holds (is_file sys location False)
        \<and> \<not> holds (is_dir sys location False)))
   \<and> (truthy (is_link sys location) \<longrightarrow>
        \<not> holds (is_file sys location False) \<and> \<not> holds (is_dir sys location False)
        \<and> holds (is_special sys location))
   \<and> (\<forall>p. location = Some p \<and> os_lstat sys p = None \<and> os_stat sys p = None \<longrightarrow>
        \<not> truthy (is_link sys location) \<and> \<not> holds (is_file sys location False)
        \<and> \<not> holds (is_dir sys location False) \<and> holds (is_special sys location))"
proof (cases location)
  case None
  then show ?thesis by (simp add: is_special_None)
next
  case (Some p)
  show ?thesis
    unfolding Some
    using isdir_not_isfile [of sys p] not_exists_tests [of sys p]
    by (auto simp: is_link_Some is_file_nofollow is_dir_nofollow is_special_Some)
qed

theorem classification_partition_witness:
  "truthy (is_link demo_os (Some ''/root/lnk''))
   \<and> holds (is_special demo_os (Some ''/root/lnk''))
   \<and> \<not> holds (is_file demo_os (Some ''/root/lnk'') False)
   \<and> \<not> holds (is_dir demo_os (Some ''/root/lnk'') False)
   \<and> os_lstat demo_os ''/root/missing'' = None \<and> os_stat demo_os ''/root/missing'' = None
   \<and> \<not> truthy (is_link demo_os (Some ''/root/missing''))
   \<and> \<not> holds (is_file demo_os (Some ''/root/missing'') False)
   \<and> \<not> holds (is_dir demo_os (Some ''/root/missing'') False)
   \<and> holds (is_special demo_os (Some ''/root/missing''))"
proof -
  have l: "truthy (is_link demo_os (Some ''/root/lnk''))"
    by (simp add: is_link_Some demo)
  have n: "os_lstat demo_os ''/root/missing'' = None \<and> os_stat demo_os ''/root/missing'' = None"
    by (simp add: demo_os_def)
  show ?thesis
    using l n classification_partition [of demo_os "Some ''/root/lnk''"]
      classification_partition [of demo_os "Some ''/root/missing''"]
    by blast
qed

subsection \<open>The modes of the permission tests\<close>

text \<open>
  C3, as claimed: for a directory \<^verbatim>\<open>is_writable\<close> tests read and write together and
  \<^verbatim>\<open>is_executable\<close> tests read and execute together. The code passes the mode
  \<^verbatim>\<open>R_OK | W_OK | X_OK\<close> in both: the directory \<^verbatim>\<open>/root/rx\<close> may be read and entered and
  is not executable for the code; the directory \<^verbatim>\<open>/root/rw\<close> may be read and written and
  is not writable for the code.
\<close>

theorem directory_permission_counterexample:
  "holds (is_dir demo_os (Some ''/root/rx'') False)
   \<and> os_access demo_os ''/root/rx'' (R_OK OR X_OK)
   \<and> is_executable demo_os (Some ''/root/rx'') = Inr (PyBool False)
   \<and> holds (is_dir demo_os (Some ''/root/rw'') False)
   \<and> os_access demo_os ''/root/rw'' (R_OK OR W_OK)
   \<and> is_writable demo_os (Some ''/root/rw'') = Inr (PyBool False)"
  by (simp add: is_dir_nofollow demo R_OK_def W_OK_def X_OK_def)

text \<open>
  C3, amended. For every directory path \<^verbatim>\<open>is_writable\<close> and \<^verbatim>\<open>is_executable\<close> both test
  read, write and execute together (the mode 7); for every plain-file path \<^verbatim>\<open>is_writable\<close>
  tests read and write together (the mode 6) and \<^verbatim>\<open>is_executable\<close> tests execute only
  (the mode 1).
\<close>

theorem permission_modes:
  "(holds (is_dir sys (Some p) False) \<longrightarrow>
      is_writable sys (Some p) = Inr (PyBool (os_access sys p (R_OK OR W_OK OR X_OK)))
      \<and> is_executable sys (Some p) = Inr (PyBool (os_access sys p (R_OK OR W_OK OR X_OK))))
   \<and> (holds (is_file sys (Some p) False) \<longrightarrow>
      is_writable sys (Some p) = Inr (PyBool (os_access sys p (R_OK OR W_OK)))
      \<and> is_executable sys (Some p) = Inr (PyBool (os_access sys p X_OK)))
   \<and> R_OK OR W_OK OR X_OK = 7 \<and> R_OK OR W_OK = 6 \<and> X_OK = 1"
  using isdir_not_isfile [of sys p]
  by (auto simp: is_file_nofollow is_dir_nofollow R_OK_def W_OK_def X_OK_def split: if_splits)

theorem permission_modes_witness:
  "holds (is_dir demo_os (Some ''/root/sub'') False)
   \<and> is_writable demo_os (Some ''/root/sub'') = Inr (PyBool True)
   \<and> is_executable demo_os (Some ''/root/sub'') = Inr (PyBool True)
   \<and> holds (is_file demo_os (Some ''/root/a.txt'') False)
   \<and> is_writable demo_os (Some ''/root/a.txt'') = Inr (PyBool True)
   \<and> is_executable demo_os (Some ''/root/a.txt'') = Inr (PyBool False)"
proof -
  have d: "holds (is_dir demo_os (Some ''/root/sub'') False)"
    by (simp add: is_dir_nofollow demo)
  have f: "holds (is_file demo_os (Some ''/root/a.txt'') False)"
    by (simp add: is_file_nofollow demo)
  have a: "os_access demo_os ''/root/sub'' 7 \<and> os_access demo_os ''/root/a.txt'' 6
             \<and> \<not> os_access demo_os ''/root/a.txt'' 1"
    by (simp add: demo_os_def X_OK_def)
  show ?thesis
    using d f a permission_modes [of demo_os "''/root/sub''"]
      permission_modes [of demo_os "''/root/a.txt''"]
    by simp
qed

subsection \<open>Empty and absent paths\<close>

text \<open>
  C6, as claimed: for an empty or absent path every classification is false, \<^verbatim>\<open>is_special\<close>
  among them. The code returns \<^verbatim>\<open>True\<close> from \<^verbatim>\<open>is_special\<close> for the empty string and for
  \<^verbatim>\<open>None\<close>.
\<close>

theorem empty_path_counterexample:
  "is_special demo_os (Some []) = Inr (PyBool True) \<and> is_special demo_os None = Inr (PyBool True)"
  by (simp add: is_special_Some is_special_None)

text \<open>
  C6, amended. For every empty or absent path no operation raises; \<^verbatim>\<open>is_link\<close>, \<^verbatim>\<open>is_file\<close>,
  \<^verbatim>\<open>is_dir\<close> and \<^verbatim>\<open>is_regular\<close> return the path itself, which is falsy; \<^verbatim>\<open>is_special\<close>, the
  negation of \<^verbatim>\<open>is_regular\<close>, returns \<^verbatim>\<open>True\<close>; \<^verbatim>\<open>is_readable\<close>, \<^verbatim>\<open>is_writable\<close>,
  \<^verbatim>\<open>is_executable\<close> and \<^verbatim>\<open>is_rwx\<close> return \<^verbatim>\<open>None\<close>; \<^verbatim>\<open>get_type\<close> returns \<^verbatim>\<open>None\<close>.
\<close>

theorem empty_path_results:
  "\<not> truthy (loc_val location) \<Longrightarrow>
     is_link sys location = loc_val location
     \<and> is_file sys location follow = Inr (loc_val location)
     \<and> is_dir sys location follow = Inr (loc_val location)
     \<and> is_regular sys location = Inr (loc_val location)
     \<and> is_special sys location = Inr (PyBool True)
     \<and> is_readable sys location = Inr PyNone
     \<and> is_writable sys location = Inr PyNone
     \<and> is_executable sys location = Inr PyNone
     \<and> is_rwx sys location = Inr PyNone
     \<and> get_type sys location short = Inr PyNone"
  by (cases location)
     (simp_all add: is_link_Some is_file.simps is_dir.simps is_regular_def is_special_def
        is_rwx_def get_type_def py_and_def py_not_def)

theorem empty_path_results_witness:
  "\<not> truthy (loc_val (Some []))
   \<and> is_link demo_os (Some []) = PyStr []
   \<and> is_file demo_os (Some []) False = Inr (PyStr [])
   \<and> is_dir demo_os (Some []) False = Inr (PyStr [])
   \<and> is_regular demo_os (Some []) = Inr (PyStr [])
   \<and> is_special demo_os (Some []) = Inr (PyBool True)
   \<and> is_readable demo_os (Some []) = Inr PyNone
   \<and> is_writable demo_os (Some []) = Inr PyNone
   \<and> is_executable demo_os (Some []) = Inr PyNone
   \<and> is_rwx demo_os (Some []) = Inr PyNone
   \<and> get_type demo_os (Some []) True = Inr PyNone"
proof -
  have h: "\<not> truthy (loc_val (Some []))" by simp
  show ?thesis
    using h empty_path_results [OF h, of demo_os False True] by simp
qed

subsection \<open>Link targets that cannot be read\<close>

text \<open>
  C7. \<^verbatim>\<open>get_link_target\<close> returns the empty string when the path is not a link, when the
  platform is not POSIX, and when \<^verbatim>\<open>os.readlink\<close> raises \<^verbatim>\<open>UnicodeEncodeError\<close>; in the last
  case \<^verbatim>\<open>is_broken_link\<close> returns a falsy value; neither function ever raises
  \<^verbatim>\<open>UnicodeEncodeError\<close>.
\<close>

theorem link_target_encoding_error:
  "((\<not> truthy (is_link sys location) \<or> \<not> on_posix sys
       \<or> (\<exists>p. location = Some p \<and> os_readlink sys p = Inl UnicodeEncodeError))
      \<longrightarrow> get_link_target sys location = Inr [])
   \<and> ((\<exists>p. location = Some p \<and> os_readlink sys p = Inl UnicodeEncodeError)
      \<longrightarrow> (\<exists>v. is_broken_link sys location = Inr v \<and> \<not> truthy v))
   \<and> get_link_target sys location \<noteq> Inl UnicodeEncodeError
   \<and> is_broken_link sys location \<noteq> Inl UnicodeEncodeError"
  by (cases location) (auto simp: py_and_def split: sum.splits exn.splits)

theorem link_target_encoding_error_witness:
  "on_posix demo_os \<and> truthy (is_link demo_os (Some ''/root/odd''))
   \<and> os_readlink demo_os ''/root/odd'' = Inl UnicodeEncodeError
   \<and> get_link_target demo_os (Some ''/root/odd'') = Inr []
   \<and> is_broken_link demo_os (Some ''/root/odd'') = Inr (PyStr [])
   \<and> \<not> truthy (is_link demo_os (Some ''/root/a.txt''))
   \<and> get_link_target demo_os (Some ''/root/a.txt'') = Inr []"
proof -
  have l: "on_posix demo_os \<and> truthy (is_link demo_os (Some ''/root/odd''))
     \<and> \<not> truthy (is_link demo_os (Some ''/root/a.txt''))"
    by (simp add: is_link_Some demo)
  have r: "os_readlink demo_os ''/root/odd'' = Inl UnicodeEncodeError"
    by (simp add: demo_os_def)
  have b: "is_broken_link demo_os (Some ''/root/odd'') = Inr (PyStr [])"
    using l r by (simp add: py_and_def)
  show ?thesis
    using l r b link_target_encoding_error [of demo_os "Some ''/root/odd''"]
      link_target_encoding_error [of demo_os "Some ''/root/a.txt''"]
    by simp
qed

subsection \<open>Falsy results that are not \<^verbatim>\<open>False\<close>\<close>

text \<open>
  C10. For an empty path \<^verbatim>\<open>is_link\<close> returns the path itself (the empty string, or
  \<^verbatim>\<open>None\<close>), and \<^verbatim>\<open>is_readable\<close>, \<^verbatim>\<open>is_writable\<close>, \<^verbatim>\<open>is_executable\<close> return \<^verbatim>\<open>None\<close>;
  \<^verbatim>\<open>is_broken_link\<close> returns \<^verbatim>\<open>None\<close> when the path is not a link or the platform is not
  POSIX. These values are falsy and are not the value \<^verbatim>\<open>False\<close>.
\<close>

theorem falsy_not_False:
  "(\<not> truthy (loc_val location) \<longrightarrow>
      is_link sys location = loc_val location
      \<and> is_link sys location \<noteq> PyBool False
      \<and> is_readable sys location = Inr PyNone
      \<and> is_writable sys location = Inr PyNone
      \<and> is_executable sys location = Inr PyNone)
   \<and> (\<not> truthy (is_link sys location) \<or> \<not> on_posix sys \<longrightarrow>
      is_broken_link sys location = Inr PyNone)
   \<and> PyNone \<noteq> PyBool False \<and> \<not> truthy PyNone
   \<and> PyStr [] \<noteq> PyBool False \<and> \<not> truthy (PyStr [])"
  by (cases location) (auto simp: is_link_Some)

theorem falsy_not_False_witness:
  "is_link demo_os (Some []) = PyStr []
   \<and> is_link demo_os None = PyNone
   \<and> is_readable demo_os (Some []) = Inr PyNone
   \<and> is_writable demo_os (Some []) = Inr PyNone
   \<and> is_executable demo_os (Some []) = Inr PyNone
   \<and> \<not> truthy (is_link demo_os (Some ''/root/a.txt''))
   \<and> is_broken_link demo_os (Some ''/root/a.txt'') = Inr PyNone"
proof -
  have l: "\<not> truthy (is_link demo_os (Some ''/root/a.txt''))"
    by (simp add: is_link_Some demo)
  show ?thesis
    using l falsy_not_False [of "Some []" demo_os] falsy_not_False [of None demo_os]
      falsy_not_False [of "Some ''/root/a.txt''" demo_os]
    by simp
qed

subsection \<open>The last modified date\<close>









subsection \<open>The counter and the aggregate\<close>

text \<open>
  \<^verbatim>\<open>is_file\<close> and \<^verbatim>\<open>is_dir\<close> never raise, so the body of \<^verbatim>\<open>counter\<close> has three cases.
\<close>

lemma counter_body_cases:
  "counter_body call sys memos location cf =
     (if holds (is_file sys location False) then
        (case counting_functions cf of
           None \<Rightarrow> Some (Inl KeyError, memos)
         | Some count_fun \<Rightarrow> Some (count_fun sys location, memos))
      else if holds (is_dir sys location False) then
        (case location of
           None \<Rightarrow> Some (Inl TypeError, memos)
         | Some p \<Rightarrow>
             (case os_scandir sys p of
                Inl e \<Rightarrow> Some (Inl e, memos)
              | Inr names \<Rightarrow>
                  sum_counts call memos (map (\<lambda>name. Some (path_join sys p name)) names) 0))
      else Some (Inr 0, memos))"
proof -
  obtain f d where f: "is_file sys location False = Inr f" and d: "is_dir sys location False = Inr d"
    using is_file_returns is_dir_returns by blast
  show ?thesis
    unfolding counter_body_def f d
    by (auto simp: Let_def split: option.splits sum.splits prod.splits)
qed

lemma counting_functions_metric:
  "counting_functions (metric_name m) = Some count_fun \<Longrightarrow>
     count_fun sys (Some p) = contribution sys m p"
  by (cases m) (auto simp: counting_functions_def)

lemma counting_functions_defined: "counting_functions (metric_name m) \<noteq> None"
  by (cases m) (auto simp: counting_functions_def)

lemma metric_name_inj: "metric_name m = metric_name m' \<Longrightarrow> m = m'"
  by (cases m; cases m') simp_all

text \<open>More fuel never changes a result of the aggregate.\<close>

lemma sum_results_mono:
  assumes "\<And>c r. c \<in> set cs \<Longrightarrow> f c = Some r \<Longrightarrow> g c = Some r"
  shows "sum_results (map f cs) acc = Some r \<Longrightarrow> sum_results (map g cs) acc = Some r"
  using assms
proof (induction cs arbitrary: acc)
  case Nil
  then show ?case by simp
next
  case (Cons c cs)
  show ?case
  proof (cases "f c")
    case None
    with Cons.prems show ?thesis by simp
  next
    case (Some x)
    then have g: "g c = Some x" using Cons.prems(2) by simp
    show ?thesis
    proof (cases x)
      case (Inl e)
      with Some g Cons.prems(1) show ?thesis by auto
    next
      case (Inr n)
      with Some g Cons.prems(1) have "sum_results (map f cs) (acc + n) = Some r" by simp
      then have "sum_results (map g cs) (acc + n) = Some r"
        using Cons.prems(2) by (intro Cons.IH) auto
      with Inr g show ?thesis by simp
    qed
  qed
qed

lemma aggregate_Suc:
  "aggregate fuel sys location m = Some r \<Longrightarrow> aggregate (Suc fuel) sys location m = Some r"
proof (induction fuel arbitrary: location r)
  case 0
  then show ?case by simp
next
  case (Suc fuel)
  show ?case
  proof (cases location)
    case None
    with Suc.prems show ?thesis by simp
  next
    case (Some p)
    show ?thesis
    proof (cases "\<not> holds (is_file sys (Some p) False) \<and> holds (is_dir sys (Some p) False)")
      case False
      with Suc.prems Some show ?thesis by auto
    next
      case True
      show ?thesis
      proof (cases "os_scandir sys p")
        case (Inl e)
        with True Suc.prems Some show ?thesis by simp
      next
        case (Inr names)
        with True Suc.prems Some have
          "sum_results (map (\<lambda>name. aggregate fuel sys (Some (path_join sys p name)) m) names) 0 = Some r"
          by simp
        then have
          "sum_results (map (\<lambda>name. aggregate (Suc fuel) sys (Some (path_join sys p name)) m) names) 0 = Some r"
          by (rule sum_results_mono [rotated]) (rule Suc.IH)
        with True Inr Some show ?thesis by (simp del: aggregate.simps(2) add: aggregate.simps(2) [of "Suc fuel"])
      qed
    qed
  qed
qed

lemma aggregate_mono:
  "aggregate fuel sys location m = Some r \<Longrightarrow> fuel \<le> fuel' \<Longrightarrow>
     aggregate fuel' sys location m = Some r"
  by (induction fuel' ) (auto simp: le_Suc_eq dest: aggregate_Suc simp del: aggregate.simps)

lemma aggregate_unique:
  assumes "aggregate fuel sys location m = Some r" and "aggregate fuel' sys location m = Some r'"
  shows "r = r'"
proof -
  have "aggregate (max fuel fuel') sys location m = Some r"
    using assms(1) by (rule aggregate_mono) simp
  moreover have "aggregate (max fuel fuel') sys location m = Some r'"
    using assms(2) by (rule aggregate_mono) simp
  ultimately show ?thesis by simp
qed

lemma memos_ok_empty: "memos_ok sys Map.empty"
  by (simp add: memos_ok_def)

lemma memos_ok_update:
  assumes "memos_ok sys memos" and "aggregate fuel sys location m = Some (Inr v)"
  shows "memos_ok sys (memos((location, metric_name m) \<mapsto> v))"
  unfolding memos_ok_def
proof (intro allI impI)
  fix l m' v'
  assume h: "(memos((location, metric_name m) \<mapsto> v)) (l, metric_name m') = Some v'"
  show "\<exists>fuel. aggregate fuel sys l m' = Some (Inr v')"
  proof (cases "l = location \<and> m' = m")
    case True
    with h assms(2) show ?thesis by auto
  next
    case False
    then have "(l, metric_name m') \<noteq> (location, metric_name m)"
      using metric_name_inj by auto
    with h have "memos (l, metric_name m') = Some v'" by (auto split: if_splits)
    with assms(1) show ?thesis by (simp add: memos_ok_def)
  qed
qed

text \<open>One call of the memoized function: a hit in the table, or the body and a store.\<close>

lemma counter_Suc:
  "counter (Suc fuel) sys memos location cf =
     (case memos (location, cf) of
        Some v \<Rightarrow> Some (Inr v, memos)
      | None \<Rightarrow>
          (case counter_body (\<lambda>m' child. counter fuel sys m' child cf) sys memos location cf of
             None \<Rightarrow> None
           | Some (Inl e, memos') \<Rightarrow> Some (Inl e, memos')
           | Some (Inr v, memos') \<Rightarrow> Some (Inr v, memos'((location, cf) \<mapsto> v))))"
  by (simp add: memoize_def split: option.splits)

declare counter.simps(2) [simp del]

text \<open>The calls on the children, one after the other, against the aggregates of the children.\<close>

lemma sum_counts_complete:
  assumes call: "\<And>memos c r. memos_ok sys memos \<Longrightarrow> agg c = Some r \<Longrightarrow>
                   \<exists>memos'. call memos c = Some (r, memos') \<and> memos_ok sys memos'"
  shows "memos_ok sys memos \<Longrightarrow> sum_results (map agg cs) acc = Some r \<Longrightarrow>
           \<exists>memos'. sum_counts call memos cs acc = Some (r, memos') \<and> memos_ok sys memos'"
proof (induction cs arbitrary: memos acc)
  case Nil
  then show ?case by auto
next
  case (Cons c cs)
  show ?case
  proof (cases "agg c")
    case None
    with Cons.prems show ?thesis by simp
  next
    case (Some x)
    from call [OF Cons.prems(1) Some] obtain memos1
      where c1: "call memos c = Some (x, memos1)" and ok1: "memos_ok sys memos1" by blast
    show ?thesis
    proof (cases x)
      case (Inl e)
      with Some Cons.prems(2) c1 ok1 show ?thesis by auto
    next
      case (Inr n)
      with Some Cons.prems(2) have "sum_results (map agg cs) (acc + n) = Some r" by simp
      from Cons.IH [OF ok1 this] Inr c1 show ?thesis by simp
    qed
  qed
qed

lemma counter_complete:
  "memos_ok sys memos \<Longrightarrow> aggregate fuel sys location m = Some r \<Longrightarrow>
     \<exists>memos'. counter fuel sys memos location (metric_name m) = Some (r, memos')
        \<and> memos_ok sys memos'"
proof (induction fuel arbitrary: memos location r)
  case 0
  then show ?case by simp
next
  case (Suc fuel)
  let ?key = "(location, metric_name m)"
  let ?call = "\<lambda>m' child. counter fuel sys m' child (metric_name m)"
  show ?case
  proof (cases "memos ?key")
    case (Some v)
    with Suc.prems(1) obtain k where "aggregate k sys location m = Some (Inr v)"
      unfolding memos_ok_def by blast
    with Suc.prems(2) have "r = Inr v" by (rule aggregate_unique)
    with Some Suc.prems(1) show ?thesis by (simp add: counter_Suc)
  next
    case None
    have body: "\<exists>memos1. counter_body ?call sys memos location (metric_name m) = Some (r, memos1)
                  \<and> memos_ok sys memos1"
    proof (cases location)
      case none: None
      with Suc.prems show ?thesis by (simp add: counter_body_cases)
    next
      case (Some p)
      show ?thesis
      proof (cases "holds (is_file sys (Some p) False)")
        case True
        with Suc.prems Some counting_functions_defined [of m] show ?thesis
          by (auto simp: counter_body_cases counting_functions_metric)
      next
        case nf: False
        show ?thesis
        proof (cases "holds (is_dir sys (Some p) False)")
          case False
          with nf Suc.prems Some show ?thesis by (simp add: counter_body_cases)
        next
          case True
          show ?thesis
          proof (cases "os_scandir sys p")
            case (Inl e)
            with nf True Suc.prems Some show ?thesis by (simp add: counter_body_cases)
          next
            case (Inr names)
            with nf True Suc.prems(2) Some have
              "sum_results (map (\<lambda>c. aggregate fuel sys c m)
                 (map (\<lambda>name. Some (path_join sys p name)) names)) 0 = Some r"
              by (simp add: o_def)
            with Suc.prems(1) have
              "\<exists>memos'. sum_counts ?call memos (map (\<lambda>name. Some (path_join sys p name)) names) 0
                  = Some (r, memos') \<and> memos_ok sys memos'"
              by (intro sum_counts_complete [where agg = "\<lambda>c. aggregate fuel sys c m"])
                 (auto intro: Suc.IH)
            with nf True Inr Some show ?thesis by (simp add: counter_body_cases)
          qed
        qed
      qed
    qed
    then obtain memos1
      where b: "counter_body ?call sys memos location (metric_name m) = Some (r, memos1)"
        and ok1: "memos_ok sys memos1" by blast
    show ?thesis
    proof (cases r)
      case (Inl e)
      with None b ok1 show ?thesis by (simp add: counter_Suc)
    next
      case (Inr v)
      from Suc.prems(2) have "aggregate (Suc fuel) sys location m = Some (Inr v)"
        unfolding Inr .
      with ok1 have "memos_ok sys (memos1(?key \<mapsto> v))"
        by (rule memos_ok_update)
      with None b Inr show ?thesis by (simp add: counter_Suc)
    qed
  qed
qed

lemma sum_results_fuel:
  "sum_results (map (\<lambda>c. aggregate k sys c m) cs) acc = Some r \<Longrightarrow> k \<le> k' \<Longrightarrow>
     sum_results (map (\<lambda>c. aggregate k' sys c m) cs) acc = Some r"
  by (erule sum_results_mono [rotated]) (rule aggregate_mono)

lemma sum_counts_sound:
  assumes call: "\<And>memos c r memos'. memos_ok sys memos \<Longrightarrow> call memos c = Some (r, memos') \<Longrightarrow>
                   (\<exists>k. aggregate k sys c m = Some r) \<and> memos_ok sys memos'"
  shows "memos_ok sys memos \<Longrightarrow> sum_counts call memos cs acc = Some (r, memos') \<Longrightarrow>
           (\<exists>k. sum_results (map (\<lambda>c. aggregate k sys c m) cs) acc = Some r)
           \<and> memos_ok sys memos'"
proof (induction cs arbitrary: memos acc)
  case Nil
  then show ?case by auto
next
  case (Cons c cs)
  from Cons.prems(2) obtain x memos1 where c1: "call memos c = Some (x, memos1)"
    by (auto split: option.splits)
  from call [OF Cons.prems(1) c1] obtain k1
    where a1: "aggregate k1 sys c m = Some x" and ok1: "memos_ok sys memos1" by blast
  show ?case
  proof (cases x)
    case (Inl e)
    with c1 Cons.prems(2) a1 ok1 show ?thesis by (auto intro!: exI [of _ k1])
  next
    case (Inr n)
    with c1 Cons.prems(2) have "sum_counts call memos1 cs (acc + n) = Some (r, memos')" by simp
    from Cons.IH [OF ok1 this] obtain k2
      where a2: "sum_results (map (\<lambda>c. aggregate k2 sys c m) cs) (acc + n) = Some r"
        and ok: "memos_ok sys memos'" by blast
    have "aggregate (max k1 k2) sys c m = Some (Inr n)"
      using a1 Inr by (auto intro: aggregate_mono)
    moreover have "sum_results (map (\<lambda>c. aggregate (max k1 k2) sys c m) cs) (acc + n) = Some r"
      using a2 by (rule sum_results_fuel) simp
    ultimately have "sum_results (map (\<lambda>c. aggregate (max k1 k2) sys c m) (c # cs)) acc = Some r"
      by simp
    with ok show ?thesis by blast
  qed
qed

lemma counter_sound:
  "memos_ok sys memos \<Longrightarrow> counter fuel sys memos location (metric_name m) = Some (r, memos') \<Longrightarrow>
     (\<exists>k. aggregate k sys location m = Some r) \<and> memos_ok sys memos'"
proof (induction fuel arbitrary: memos location r memos')
  case 0
  then show ?case by simp
next
  case (Suc fuel)
  let ?key = "(location, metric_name m)"
  let ?call = "\<lambda>m' child. counter fuel sys m' child (metric_name m)"
  show ?case
  proof (cases "memos ?key")
    case (Some v)
    with Suc.prems show ?thesis by (auto simp: counter_Suc memos_ok_def)
  next
    case None
    with Suc.prems(2) obtain memos1
      where b: "counter_body ?call sys memos location (metric_name m) = Some (r, memos1)"
        and m': "memos' = (case r of Inl e \<Rightarrow> memos1 | Inr v \<Rightarrow> memos1(?key \<mapsto> v))"
      by (auto simp: counter_Suc split: option.splits sum.splits)
    have body: "(\<exists>k. aggregate k sys location m = Some r) \<and> memos_ok sys memos1"
    proof (cases location)
      case none: None
      with b Suc.prems(1) have "aggregate 1 sys location m = Some r \<and> memos_ok sys memos1"
        by (auto simp: counter_body_cases)
      then show ?thesis by blast
    next
      case (Some p)
      show ?thesis
      proof (cases "holds (is_file sys (Some p) False)")
        case True
        with b Suc.prems(1) Some counting_functions_defined [of m]
        have "aggregate 1 sys location m = Some r \<and> memos_ok sys memos1"
          by (auto simp: counter_body_cases counting_functions_metric)
        then show ?thesis by blast
      next
        case nf: False
        show ?thesis
        proof (cases "holds (is_dir sys (Some p) False)")
          case False
          with nf b Suc.prems(1) Some
          have "aggregate 1 sys location m = Some r \<and> memos_ok sys memos1"
            by (auto simp: counter_body_cases)
          then show ?thesis by blast
        next
          case True
          show ?thesis
          proof (cases "os_scandir sys p")
            case (Inl e)
            with nf True b Suc.prems(1) Some
            have "aggregate 1 sys location m = Some r \<and> memos_ok sys memos1"
              by (auto simp: counter_body_cases)
            then show ?thesis by blast
          next
            case (Inr names)
            with nf True b Some have
              "sum_counts ?call memos (map (\<lambda>name. Some (path_join sys p name)) names) 0
                 = Some (r, memos1)"
              by (simp add: counter_body_cases)
            with Suc.prems(1) have
              "(\<exists>k. sum_results (map (\<lambda>c. aggregate k sys c m)
                  (map (\<lambda>name. Some (path_join sys p name)) names)) 0 = Some r)
               \<and> memos_ok sys memos1"
              by (intro sum_counts_sound [where call = ?call]) (auto dest: Suc.IH)
            then obtain k where
              "sum_results (map (\<lambda>name. aggregate k sys (Some (path_join sys p name)) m) names) 0 = Some r"
              and ok1: "memos_ok sys memos1"
              by (auto simp: o_def)
            with nf True Inr Some have "aggregate (Suc k) sys location m = Some r" by simp
            with ok1 show ?thesis by blast
          qed
        qed
      qed
    qed
    then obtain k where a: "aggregate k sys location m = Some r" and ok1: "memos_ok sys memos1"
      by blast
    have "memos_ok sys memos'"
    proof (cases r)
      case (Inl e)
      with m' ok1 show ?thesis by simp
    next
      case (Inr v)
      with a ok1 m' show ?thesis by (auto intro: memos_ok_update)
    qed
    with a show ?thesis by blast
  qed
qed

text \<open>Enough fuel: a call returns when the fuel exceeds the depth of the tree.\<close>

lemma sum_results_total:
  "(\<forall>x \<in> set xs. \<exists>r. f x = Some r) \<Longrightarrow> \<exists>r. sum_results (map f xs) acc = Some r"
proof (induction xs arbitrary: acc)
  case Nil
  then show ?case by simp
next
  case (Cons x xs)
  then obtain r where r: "f x = Some r" by auto
  show ?case
  proof (cases r)
    case (Inl e)
    with r show ?thesis by simp
  next
    case (Inr n)
    with r Cons.IH [of "acc + n"] Cons.prems show ?thesis by simp
  qed
qed

lemma aggregate_total:
  "depth_within n sys location \<Longrightarrow> \<exists>r. aggregate (Suc n) sys location m = Some r"
proof (induction n arbitrary: location)
  case 0
  then show ?case by (cases location) simp_all
next
  case (Suc n)
  show ?case
  proof (cases location)
    case None
    then show ?thesis by simp
  next
    case (Some p)
    show ?thesis
    proof (cases "\<not> holds (is_file sys (Some p) False) \<and> holds (is_dir sys (Some p) False)")
      case False
      with Some show ?thesis by auto
    next
      case True
      show ?thesis
      proof (cases "os_scandir sys p")
        case (Inl e)
        with True Some show ?thesis by simp
      next
        case (Inr names)
        with True Some Suc.prems have
          "\<forall>name \<in> set names. depth_within n sys (Some (path_join sys p name))"
          by (simp add: list_all_iff)
        then have "\<forall>name \<in> set names. \<exists>r. aggregate (Suc n) sys (Some (path_join sys p name)) m = Some r"
          using Suc.IH by blast
        then have "\<exists>r. sum_results
            (map (\<lambda>name. aggregate (Suc n) sys (Some (path_join sys p name)) m) names) 0 = Some r"
          by (rule sum_results_total)
        with True Inr Some show ?thesis
          by (simp del: aggregate.simps(2) add: aggregate.simps(2) [of "Suc n"])
      qed
    qed
  qed
qed

lemma counter_terminates:
  assumes "memos_ok sys memos" and "depth_within n sys location"
  shows "\<exists>r memos'. counter (Suc n) sys memos location (metric_name m) = Some (r, memos')
           \<and> aggregate (Suc n) sys location m = Some r \<and> memos_ok sys memos'"
proof -
  from aggregate_total [OF assms(2)] obtain r where r: "aggregate (Suc n) sys location m = Some r"
    by blast
  from counter_complete [OF assms(1) r] r show ?thesis by blast
qed

text \<open>The fuel does not change what a call returns.\<close>

lemma counter_fuel_irrelevant:
  assumes "memos_ok sys memos"
    and "counter k sys memos location (metric_name m) = Some (r, memos1)"
    and "counter k' sys memos location (metric_name m) = Some (r', memos2)"
  shows "r = r'"
proof -
  from counter_sound [OF assms(1,2)] obtain j where j: "aggregate j sys location m = Some r"
    by blast
  from counter_sound [OF assms(1,3)] obtain j' where j': "aggregate j' sys location m = Some r'"
    by blast
  from j j' show ?thesis by (rule aggregate_unique)
qed

lemma common_fuel:
  "(\<forall>x \<in> set xs. \<exists>k. aggregate k sys (f x) m = Some (Inr (v x))) \<Longrightarrow>
     \<exists>K. \<forall>x \<in> set xs. aggregate K sys (f x) m = Some (Inr (v x))"
proof (induction xs)
  case Nil
  then show ?case by simp
next
  case (Cons x xs)
  then obtain K where K: "\<forall>x \<in> set xs. aggregate K sys (f x) m = Some (Inr (v x))" by auto
  from Cons.prems obtain k where k: "aggregate k sys (f x) m = Some (Inr (v x))" by auto
  have "\<forall>y \<in> set (x # xs). aggregate (max k K) sys (f y) m = Some (Inr (v y))"
    using K k by (auto intro: aggregate_mono)
  then show ?case by blast
qed

lemma sum_results_values:
  "(\<forall>x \<in> set xs. agg x = Some (Inr (v x))) \<Longrightarrow>
     sum_results (map agg xs) acc = Some (Inr (acc + sum_list (map v xs)))"
  by (induction xs arbitrary: acc) (simp_all add: add.assoc)

lemma returned_Some: "returned out = Some r \<longleftrightarrow> (\<exists>memos'. out = Some (r, memos'))"
  by (cases out) (auto simp: returned_def)

text \<open>Running \<open>counter\<close> on the example filesystem.\<close>

lemmas run_counter =
  counter_Suc counter_body_cases is_file_nofollow is_dir_nofollow counting_functions_def
  os_path_getsize_def returned_def demo

text \<open>
  C4. On a memo table that agrees with the filesystem (the empty table, and every table
  \<open>counter\<close> leaves while the filesystem does not change), for every path and metric:
  when the path is a file, \<open>counter\<close> returns the metric's count of the file, 1 for
  \<^verbatim>\<open>file_count\<close> and \<^verbatim>\<open>st_size\<close> for \<^verbatim>\<open>file_size\<close>; when the path is a directory and
  \<open>counter\<close> returns \<open>v name\<close> on each entry, its name joined to the path, \<open>counter\<close> returns
  the sum of these values; when the path is neither a file nor a directory, \<open>counter\<close>
  returns 0. A call returns (a value or an exception) when its fuel exceeds the depth of
  the tree under the path.
\<close>

theorem counter_cases:
  assumes ok: "memos_ok sys memos"
  shows
    "(holds (is_file sys (Some p) False) \<longrightarrow>
        returned (counter (Suc fuel) sys memos (Some p) (metric_name m)) = Some (contribution sys m p)
        \<and> contribution sys FileCount p = Inr 1
        \<and> (\<exists>st. os_stat sys p = Some st \<and> contribution sys FileSize p = Inr (st_size st)))
     \<and> (holds (is_dir sys (Some p) False) \<and> os_scandir sys p = Inr names
          \<and> (\<forall>name \<in> set names. \<exists>k.
                returned (counter k sys memos (Some (path_join sys p name)) (metric_name m))
                  = Some (Inr (v name)))
        \<longrightarrow> (\<exists>k. returned (counter k sys memos (Some p) (metric_name m))
                  = Some (Inr (sum_list (map v names)))))
     \<and> (\<not> holds (is_file sys location False) \<and> \<not> holds (is_dir sys location False) \<longrightarrow>
          returned (counter (Suc fuel) sys memos location (metric_name m)) = Some (Inr 0))
     \<and> (depth_within n sys location \<longrightarrow>
          (\<exists>r. returned (counter (Suc n) sys memos location (metric_name m)) = Some r))"
proof (intro conjI impI)
  assume f: "holds (is_file sys (Some p) False)"
  then have "aggregate (Suc fuel) sys (Some p) m = Some (contribution sys m p)" by simp
  from counter_complete [OF ok this]
  show "returned (counter (Suc fuel) sys memos (Some p) (metric_name m)) = Some (contribution sys m p)"
    by (auto simp: returned_Some)
  show "contribution sys FileCount p = Inr 1" by simp
  from holds_is_file_stat [OF f]
  show "\<exists>st. os_stat sys p = Some st \<and> contribution sys FileSize p = Inr (st_size st)"
    by (auto simp: os_path_getsize_def)
next
  assume d: "holds (is_dir sys (Some p) False) \<and> os_scandir sys p = Inr names
          \<and> (\<forall>name \<in> set names. \<exists>k.
                returned (counter k sys memos (Some (path_join sys p name)) (metric_name m))
                  = Some (Inr (v name)))"
  have "\<forall>name \<in> set names. \<exists>k. aggregate k sys (Some (path_join sys p name)) m = Some (Inr (v name))"
  proof
    fix name assume "name \<in> set names"
    with d obtain k memos' where
      "counter k sys memos (Some (path_join sys p name)) (metric_name m) = Some (Inr (v name), memos')"
      by (auto simp: returned_Some)
    from counter_sound [OF ok this]
    show "\<exists>k. aggregate k sys (Some (path_join sys p name)) m = Some (Inr (v name))" by blast
  qed
  then obtain K where
    "\<forall>name \<in> set names. aggregate K sys (Some (path_join sys p name)) m = Some (Inr (v name))"
    using common_fuel [where f = "\<lambda>name. Some (path_join sys p name)"] by blast
  then have "sum_results (map (\<lambda>name. aggregate K sys (Some (path_join sys p name)) m) names) 0
      = Some (Inr (0 + sum_list (map v names)))"
    by (rule sum_results_values)
  moreover have "\<not> holds (is_file sys (Some p) False)"
    using d not_file_and_dir by blast
  ultimately have "aggregate (Suc K) sys (Some p) m = Some (Inr (sum_list (map v names)))"
    using d by simp
  from counter_complete [OF ok this]
  have "returned (counter (Suc K) sys memos (Some p) (metric_name m))
          = Some (Inr (sum_list (map v names)))"
    by (auto simp: returned_Some)
  then show "\<exists>k. returned (counter k sys memos (Some p) (metric_name m))
                  = Some (Inr (sum_list (map v names)))"
    by blast
next
  assume n: "\<not> holds (is_file sys location False) \<and> \<not> holds (is_dir sys location False)"
  then have "aggregate (Suc fuel) sys location m = Some (Inr 0)"
    by (cases location) simp_all
  from counter_complete [OF ok this]
  show "returned (counter (Suc fuel) sys memos location (metric_name m)) = Some (Inr 0)"
    by (auto simp: returned_Some)
next
  assume "depth_within n sys location"
  from counter_terminates [OF ok this, of m] obtain r memos'
    where "counter (Suc n) sys memos location (metric_name m) = Some (r, memos')"
    by blast
  then show "\<exists>r. returned (counter (Suc n) sys memos location (metric_name m)) = Some r"
    by (auto simp: returned_Some)
qed

theorem counter_cases_witness:
  "memos_ok demo_os Map.empty
   \<and> holds (is_file demo_os (Some ''/root/a.txt'') False)
   \<and> returned (counter 1 demo_os Map.empty (Some ''/root/a.txt'') ''file_count'') = Some (Inr 1)
   \<and> returned (counter 1 demo_os Map.empty (Some ''/root/a.txt'') ''file_size'') = Some (Inr 5)
   \<and> holds (is_dir demo_os (Some ''/root'') False)
   \<and> os_scandir demo_os ''/root'' = Inr [''a.txt'', ''sub'', ''lnk'', ''broken'', ''odd'', ''rx'', ''rw'']
   \<and> returned (counter 2 demo_os Map.empty (Some ''/root/a.txt'') ''file_size'') = Some (Inr 5)
   \<and> returned (counter 2 demo_os Map.empty (Some ''/root/sub'') ''file_size'') = Some (Inr 3)
   \<and> returned (counter 2 demo_os Map.empty (Some ''/root/lnk'') ''file_size'') = Some (Inr 0)
   \<and> returned (counter 2 demo_os Map.empty (Some ''/root/broken'') ''file_size'') = Some (Inr 0)
   \<and> returned (counter 2 demo_os Map.empty (Some ''/root/odd'') ''file_size'') = Some (Inr 0)
   \<and> returned (counter 2 demo_os Map.empty (Some ''/root/rx'') ''file_size'') = Some (Inr 0)
   \<and> returned (counter 2 demo_os Map.empty (Some ''/root/rw'') ''file_size'') = Some (Inr 0)
   \<and> (\<exists>k. returned (counter k demo_os Map.empty (Some ''/root'') ''file_size'') = Some (Inr 8))
   \<and> \<not> holds (is_file demo_os (Some ''/root/broken'') False)
   \<and> \<not> holds (is_dir demo_os (Some ''/root/broken'') False)
   \<and> returned (counter 1 demo_os Map.empty (Some ''/root/broken'') ''file_count'') = Some (Inr 0)
   \<and> depth_within 2 demo_os (Some ''/root'')
   \<and> (\<exists>r. returned (counter 3 demo_os Map.empty (Some ''/root'') ''file_count'') = Some r)"
proof -
  let ?names = "[''a.txt'', ''sub'', ''lnk'', ''broken'', ''odd'', ''rx'', ''rw'']"
  let ?v = "\<lambda>name. if name = ''a.txt'' then 5 else if name = ''sub'' then 3 else (0::int)"
  have ok: "memos_ok demo_os Map.empty" by (rule memos_ok_empty)
  have f: "holds (is_file demo_os (Some ''/root/a.txt'') False)"
    by (simp add: is_file_nofollow demo)
  have d: "holds (is_dir demo_os (Some ''/root'') False)
     \<and> os_scandir demo_os ''/root'' = Inr ?names"
    by (simp add: is_dir_nofollow demo)
  have n: "\<not> holds (is_file demo_os (Some ''/root/broken'') False)
     \<and> \<not> holds (is_dir demo_os (Some ''/root/broken'') False)"
    by (simp add: is_file_nofollow is_dir_nofollow demo)
  have s: "os_stat demo_os ''/root/a.txt'' = Some (demo_stat S_IFREG 5)"
    by (simp add: demo_os_def)
  have c: "returned (counter 2 demo_os Map.empty (Some ''/root/a.txt'') ''file_size'') = Some (Inr 5)
   \<and> returned (counter 2 demo_os Map.empty (Some ''/root/sub'') ''file_size'') = Some (Inr 3)
   \<and> returned (counter 2 demo_os Map.empty (Some ''/root/lnk'') ''file_size'') = Some (Inr 0)
   \<and> returned (counter 2 demo_os Map.empty (Some ''/root/broken'') ''file_size'') = Some (Inr 0)
   \<and> returned (counter 2 demo_os Map.empty (Some ''/root/odd'') ''file_size'') = Some (Inr 0)
   \<and> returned (counter 2 demo_os Map.empty (Some ''/root/rx'') ''file_size'') = Some (Inr 0)
   \<and> returned (counter 2 demo_os Map.empty (Some ''/root/rw'') ''file_size'') = Some (Inr 0)"
    by (simp add: numeral_2_eq_2 run_counter)
  have j: "path_join demo_os = posix_join" by (simp add: demo_os_def)
  have "\<forall>name \<in> set ?names.
      returned (counter 2 demo_os Map.empty (Some (path_join demo_os ''/root'' name))
        (metric_name FileSize)) = Some (Inr (?v name))"
    using c unfolding j by (simp add: posix_join_def)
  then have ch: "\<forall>name \<in> set ?names. \<exists>k.
      returned (counter k demo_os Map.empty (Some (path_join demo_os ''/root'' name))
        (metric_name FileSize)) = Some (Inr (?v name))"
    by blast
  have file_count: "returned (counter 1 demo_os Map.empty (Some ''/root/a.txt'') ''file_count'') = Some (Inr 1)"
    using f counter_cases [OF ok, where p = "''/root/a.txt''" and fuel = 0 and m = FileCount]
    by simp
  have file_size: "returned (counter 1 demo_os Map.empty (Some ''/root/a.txt'') ''file_size'') = Some (Inr 5)"
    using f s counter_cases [OF ok, where p = "''/root/a.txt''" and fuel = 0 and m = FileSize]
    by (simp add: os_path_getsize_def demo_stat_def)
  have dir: "\<exists>k. returned (counter k demo_os Map.empty (Some ''/root'') ''file_size'') = Some (Inr 8)"
    using d ch counter_cases [OF ok, where p = "''/root''" and m = FileSize and names = ?names and v = ?v]
    by simp
  have neither: "returned (counter 1 demo_os Map.empty (Some ''/root/broken'') ''file_count'') = Some (Inr 0)"
    using n counter_cases [OF ok, where location = "Some ''/root/broken''" and fuel = 0 and m = FileCount]
    by simp
  have depth: "depth_within 2 demo_os (Some ''/root'')"
    by (simp add: numeral_2_eq_2 is_dir_nofollow demo)
  have returns: "\<exists>r. returned (counter 3 demo_os Map.empty (Some ''/root'') ''file_count'') = Some r"
    using depth counter_cases [OF ok, where location = "Some ''/root''" and n = 2 and m = FileCount]
    by (simp add: numeral_3_eq_3 numeral_2_eq_2)
  show ?thesis
    using ok f d n c file_count file_size dir neither depth returns by simp
qed

text \<open>
  C5. When a call of \<open>counter\<close> has returned the integer \<open>v\<close>, the table it leaves holds
  \<open>v\<close> for the pair of its arguments, and every later call with the same pair on that
  table returns \<open>v\<close> and leaves the table as it is, whatever the filesystem is by then:
  the value is read from the table and the filesystem is not looked at.
\<close>

theorem second_call_cached:
  "counter fuel sys memos location cf = Some (Inr v, memos') \<Longrightarrow>
     memos' (location, cf) = Some v
     \<and> (\<forall>fuel' sys'. counter (Suc fuel') sys' memos' location cf = Some (Inr v, memos'))"
proof (cases fuel)
  case 0
  assume "counter fuel sys memos location cf = Some (Inr v, memos')"
  with 0 show ?thesis by simp
next
  case (Suc n)
  assume "counter fuel sys memos location cf = Some (Inr v, memos')"
  with Suc have "memos' (location, cf) = Some v"
    by (auto simp: counter_Suc split: option.splits sum.splits)
  then show ?thesis by (simp add: counter_Suc)
qed

theorem second_call_cached_witness:
  "(case counter 3 demo_os Map.empty (Some ''/root'') ''file_size'' of
      Some (Inr v, memos') \<Rightarrow>
        v = 8 \<and> memos' (Some ''/root'', ''file_size'') = Some 8
        \<and> counter 1 demo_os memos' (Some ''/root'') ''file_size'' = Some (Inr 8, memos')
    | _ \<Rightarrow> False)"
proof -
  have "returned (counter 3 demo_os Map.empty (Some ''/root'') ''file_size'') = Some (Inr 8)"
    by (simp add: numeral_3_eq_3 run_counter)
  then obtain memos' where
    c: "counter 3 demo_os Map.empty (Some ''/root'') ''file_size'' = Some (Inr 8, memos')"
    by (auto simp: returned_Some)
  from second_call_cached [OF c] have
    "memos' (Some ''/root'', ''file_size'') = Some 8
     \<and> counter (Suc 0) demo_os memos' (Some ''/root'') ''file_size'' = Some (Inr 8, memos')"
    by blast
  with c show ?thesis by simp
qed

end
